theory Spec2Isabelle
  imports Complex_Main "HOL-Library.Multiset" "HOL-Library.Sublist"
begin

section \<open>Strings as Python sees them\<close>

text \<open>
  A Python \<open>str\<close> is modelled as a \<open>string\<close> whose characters are the code points
  below 256. The helpers below are the library operations the report generator calls:
  \<open>str.strip()\<close>, \<open>str.split(sep)\<close>, \<open>str.lower()\<close>, the \<open>in\<close> test on strings,
  \<open>int(s)\<close>, and the iteration over the lines of a text file.
\<close>

definition py_isspace :: "char \<Rightarrow> bool" where
  \<comment> \<open>the code points below 256 for which \<open>str.isspace\<close> holds\<close>
  "py_isspace c = (c \<in> set [CHR 0x09, CHR 0x0A, CHR 0x0B, CHR 0x0C, CHR 0x0D,
                           CHR 0x1C, CHR 0x1D, CHR 0x1E, CHR 0x1F, CHR 0x20,
                           CHR 0x85, CHR 0xA0])"

definition strip :: "string \<Rightarrow> string" where
  \<comment> \<open>\<open>s.strip()\<close>: whitespace removed at both ends\<close>
  "strip s = rev (dropWhile py_isspace (rev (dropWhile py_isspace s)))"

fun split_on :: "char \<Rightarrow> string \<Rightarrow> string list" where
  \<comment> \<open>\<open>s.split(sep)\<close> for a one-character separator: every separator cuts, empty
     fields are kept, and the result is never empty\<close>
  "split_on d [] = [[]]"
| "split_on d (c # cs) =
     (if c = d then [] # split_on d cs
      else (case split_on d cs of
              [] \<Rightarrow> [[c]]
            | p # ps \<Rightarrow> (c # p) # ps))"

definition py_lower_char :: "char \<Rightarrow> char" where
  \<comment> \<open>\<open>str.lower()\<close> on one code point below 256: A-Z and the accented capitals
     0xC0-0xDE (the multiplication sign 0xD7 apart) move up by 32\<close>
  "py_lower_char c =
     (let n = (of_char c :: nat)
      in if (65 \<le> n \<and> n \<le> 90) \<or> (192 \<le> n \<and> n \<le> 222 \<and> n \<noteq> 215)
         then char_of (n + 32) else c)"

definition lower :: "string \<Rightarrow> string" where
  "lower s = map py_lower_char s"

fun str_in :: "string \<Rightarrow> string \<Rightarrow> bool" where
  \<comment> \<open>\<open>kw in s\<close>: \<open>kw\<close> occurs in \<open>s\<close> as a contiguous substring\<close>
  "str_in kw [] = (kw = [])"
| "str_in kw (c # cs) = (prefix kw (c # cs) \<or> str_in kw cs)"

definition is_digit :: "char \<Rightarrow> bool" where
  "is_digit c = (c \<in> set ''0123456789'')"

definition digit_val :: "char \<Rightarrow> nat" where
  "digit_val c = (of_char c :: nat) - 48"

fun int_digits :: "nat \<Rightarrow> string \<Rightarrow> nat option" where
  \<comment> \<open>the digits after the first one; a single underscore may stand between two
     digits\<close>
  "int_digits acc [] = Some acc"
| "int_digits acc [c] = (if is_digit c then Some (10 * acc + digit_val c) else None)"
| "int_digits acc (c # d # ds) =
     (if is_digit c then int_digits (10 * acc + digit_val c) (d # ds)
      else if c = CHR ''_'' \<and> is_digit d then int_digits (10 * acc + digit_val d) ds
      else None)"

definition int_isspace :: "char \<Rightarrow> bool" where
  \<comment> \<open>the whitespace \<open>int\<close> skips around a number: the separators 0x1C-0x1F, which
     \<open>strip\<close> removes, are not among it\<close>
  "int_isspace c = (c \<in> set [CHR 0x09, CHR 0x0A, CHR 0x0B, CHR 0x0C, CHR 0x0D, CHR 0x20,
                            CHR 0x85, CHR 0xA0])"

definition py_int :: "string \<Rightarrow> int option" where
  \<comment> \<open>\<open>int(s)\<close> in base 10: surrounding whitespace, an optional sign, then digits
     (at most 4300 of them, the limit of CPython 3.11 and later). \<open>None\<close> is the
     \<open>ValueError\<close>.\<close>
  "py_int s =
     (case rev (dropWhile int_isspace (rev (dropWhile int_isspace s))) of
        [] \<Rightarrow> None
      | c # cs \<Rightarrow>
          (let neg = (c = CHR ''-'');
               body = (if c = CHR ''-'' \<or> c = CHR ''+'' then cs else c # cs)
           in case body of
                [] \<Rightarrow> None
              | d # ds \<Rightarrow>
                  if is_digit d \<and> length (filter is_digit body) \<le> 4300
                  then map_option (\<lambda>n. if neg then - int n else int n)
                         (int_digits (digit_val d) ds)
                  else None))"

fun translate_newlines :: "string \<Rightarrow> string" where
  \<comment> \<open>text mode with universal newlines: CR LF and a lone CR are read as LF\<close>
  "translate_newlines [] = []"
| "translate_newlines [c] = [if c = CHR 0x0D then CHR 0x0A else c]"
| "translate_newlines (c # d # ds) =
     (if c = CHR 0x0D
      then (if d = CHR 0x0A then CHR 0x0A # translate_newlines ds
            else CHR 0x0A # translate_newlines (d # ds))
      else c # translate_newlines (d # ds))"

fun cut_lines :: "string \<Rightarrow> string list" where
  \<comment> \<open>the lines a file iterator yields: each keeps its LF, the last may lack one\<close>
  "cut_lines [] = []"
| "cut_lines (c # cs) =
     (if c = CHR 0x0A then [c] # cut_lines cs
      else (case cut_lines cs of
              [] \<Rightarrow> [[c]]
            | l # ls \<Rightarrow> (c # l) # ls))"

definition file_lines :: "string \<Rightarrow> string list" where
  \<comment> \<open>\<open>for line in f\<close> over a file opened with \<open>open(path, 'r')\<close>\<close>
  "file_lines content = cut_lines (translate_newlines content)"

section \<open>The frequency table\<close>

text \<open>
  \<open>self.data\<close> is a \<open>defaultdict(int)\<close>. A Python dict keeps its keys in the order
  of their first insertion and \<open>analyze\<close> sorts its items stably, so the table is an
  association list in insertion order. \<open>add_count\<close> is \<open>self.data[k] += n\<close>: a new key
  starts from 0 and goes to the end, an old key keeps its place.
\<close>

type_synonym table = "(string \<times> int) list"

fun add_count :: "table \<Rightarrow> string \<Rightarrow> int \<Rightarrow> table" where
  "add_count [] k n = [(k, 0 + n)]"
| "add_count ((k', v) # t) k n =
     (if k' = k then (k', v + n) # t else (k', v) # add_count t k n)"

fun lookup0 :: "table \<Rightarrow> string \<Rightarrow> int" where
  \<comment> \<open>the count of a key, 0 for a key that was never added\<close>
  "lookup0 [] k = 0"
| "lookup0 ((k', v) # t) k = (if k' = k then v else lookup0 t k)"

datatype exit = SystemExit nat

section \<open>Ingestion of a tab-delimited artifact\<close>

text \<open>
  \<open>_parse_json\<close> (report.py, lines 51-64). Any exception inside the loop is caught,
  reported and turned into \<open>sys.exit(1)\<close>; the constructor of the generator calls
  \<open>load_data\<close>, so after an exit no generator and no table exist.
\<close>

definition parse_line :: "table \<Rightarrow> string \<Rightarrow> table option" where
  \<comment> \<open>the body of the loop; \<open>None\<close> is the \<open>ValueError\<close> of \<open>int\<close>\<close>
  "parse_line data line =
     (if CHR 0x09 \<in> set line
      then (let parts = split_on (CHR 0x09) (strip line)
            in if length parts \<ge> 2
               then (case py_int (parts ! 1) of
                       None \<Rightarrow> None
                     | Some cnt \<Rightarrow> Some (add_count data (parts ! 0) cnt))
               else Some data)
      else Some data)"

fun parse_lines :: "table \<Rightarrow> string list \<Rightarrow> table option" where
  "parse_lines data [] = Some data"
| "parse_lines data (line # rest) =
     (case parse_line data line of
        None \<Rightarrow> None
      | Some data' \<Rightarrow> parse_lines data' rest)"

definition parse_json :: "string list \<Rightarrow> exit + table" where
  \<comment> \<open>from the empty table of \<open>__init__\<close>, over the lines of the file\<close>
  "parse_json ls =
     (case parse_lines [] ls of
        None \<Rightarrow> Inl (SystemExit 1)
      | Some data \<Rightarrow> Inr data)"

section \<open>Ingestion of a flame graph\<close>

text \<open>
  \<open>_parse_svg\<close> (report.py, lines 34-49) reads the whole file and collects
  \<open>re.findall(pattern, content)\<close> for the pattern
  \<^verbatim>\<open><g[^>]*>\s*<title>([^<]+)\s*\(\d+\s*samples[^<]*</title>\<close>.
  With one group in the pattern, \<open>findall\<close> returns the text of that group for each
  match, left to right, matches not overlapping. Every piece of the pattern but the
  group is forced: a starred class is followed by a character outside the class, so the
  greedy choice is the only one. The group is greedy and backs off one character at a
  time until the rest of the pattern matches.
\<close>

fun strip_prefix :: "string \<Rightarrow> string \<Rightarrow> string option" where
  \<comment> \<open>a literal piece of the pattern: the text after it, if the text starts with it\<close>
  "strip_prefix [] s = Some s"
| "strip_prefix (p # ps) [] = None"
| "strip_prefix (p # ps) (c # cs) = (if p = c then strip_prefix ps cs else None)"

definition tail_pattern :: "string \<Rightarrow> string option" where
  \<comment> \<open>\<^verbatim>\<open>\s*\(\d+\s*samples[^<]*</title>\<close> at the start of the text\<close>
  "tail_pattern s =
     (case dropWhile py_isspace s of
        [] \<Rightarrow> None
      | c # r1 \<Rightarrow>
          if c = CHR ''('' \<and> takeWhile is_digit r1 \<noteq> []
          then (case strip_prefix ''samples''
                       (dropWhile py_isspace (dropWhile is_digit r1)) of
                  None \<Rightarrow> None
                | Some r2 \<Rightarrow>
                    strip_prefix ''</title>'' (dropWhile (\<lambda>x. x \<noteq> CHR ''<'') r2))
          else None)"

fun longest_group :: "string \<Rightarrow> (string \<times> string) option" where
  \<comment> \<open>\<^verbatim>\<open>([^<]+)\<close> followed by the tail: the longest group first; the result is
     the group and the text after the whole match\<close>
  "longest_group [] = None"
| "longest_group (c # cs) =
     (if c = CHR ''<'' then None
      else (case longest_group cs of
              Some (g, r) \<Rightarrow> Some (c # g, r)
            | None \<Rightarrow> (case tail_pattern cs of
                         Some r \<Rightarrow> Some ([c], r)
                       | None \<Rightarrow> None)))"

definition match_here :: "string \<Rightarrow> (string \<times> string) option" where
  \<comment> \<open>the whole pattern at the start of the text\<close>
  "match_here s =
     (case strip_prefix ''<g'' s of
        None \<Rightarrow> None
      | Some r0 \<Rightarrow>
          (case dropWhile (\<lambda>x. x \<noteq> CHR ''>'') r0 of
             [] \<Rightarrow> None
           | gt # r1 \<Rightarrow>
               (case strip_prefix ''<title>'' (dropWhile py_isspace r1) of
                  None \<Rightarrow> None
                | Some r2 \<Rightarrow> longest_group r2)))"

function findall :: "string \<Rightarrow> string list" where
  "findall [] = []"
| "findall (c # cs) =
     (case match_here (c # cs) of
        None \<Rightarrow> findall cs
      | Some (g, r) \<Rightarrow> g # findall r)"
  by pat_completeness auto
termination
proof -
  have sp: "length r \<le> length s" if "strip_prefix p s = Some r" for p s r
    using that by (induction p s rule: strip_prefix.induct) (auto split: if_splits)
  have dw: "length (dropWhile P s) \<le> length s" for P and s :: string
    by (induction s) auto
  have tp: "length r \<le> length s" if "tail_pattern s = Some r" for s r
  proof -
    from that obtain c r1 r2 where
      a: "dropWhile py_isspace s = c # r1"
      and b: "strip_prefix ''samples'' (dropWhile py_isspace (dropWhile is_digit r1)) = Some r2"
      and c: "strip_prefix ''</title>'' (dropWhile (\<lambda>x. x \<noteq> CHR ''<'') r2) = Some r"
      by (auto simp: tail_pattern_def split: list.splits if_splits option.splits)
    have "length r \<le> length r2"
      using sp[OF c] dw[of "\<lambda>x. x \<noteq> CHR ''<''" r2] by simp
    moreover have "length r2 \<le> length r1"
      using sp[OF b] dw[of py_isspace "dropWhile is_digit r1"] dw[of is_digit r1] by simp
    moreover have "length r1 < length s"
      using dw[of py_isspace s] a by simp
    ultimately show ?thesis by simp
  qed
  have lg: "length r < length s" if "longest_group s = Some (g, r)" for s g r
    using that
  proof (induction s arbitrary: g r)
    case Nil
    then show ?case by simp
  next
    case (Cons c cs)
    then show ?case using tp[of cs]
      by (fastforce split: if_splits option.splits prod.splits)
  qed
  have mh: "length r < length s" if "match_here s = Some (g, r)" for s g r
  proof -
    from that obtain r0 gt r1 r2 where
      a: "strip_prefix ''<g'' s = Some r0"
      and b: "dropWhile (\<lambda>x. x \<noteq> CHR ''>'') r0 = gt # r1"
      and c: "strip_prefix ''<title>'' (dropWhile py_isspace r1) = Some r2"
      and d: "longest_group r2 = Some (g, r)"
      by (auto simp: match_here_def split: option.splits list.splits)
    have "length r2 \<le> length r1"
      using sp[OF c] dw[of py_isspace r1] by simp
    moreover have "length r1 < length r0"
      using dw[of "\<lambda>x. x \<noteq> CHR ''>''" r0] b by simp
    moreover have "length r0 \<le> length s"
      using sp[OF a] .
    ultimately show ?thesis using lg[OF d] by simp
  qed
  show ?thesis
    by (relation "measure length") (auto dest: mh)
qed

definition parse_svg :: "string \<Rightarrow> exit + table" where
  \<comment> \<open>\<open>self.data[func_name.strip()] += 1\<close> for each match. Matching cannot raise, so
     in the model the \<open>except\<close> branch (an unreadable file) is never taken.\<close>
  "parse_svg content =
     Inr (foldl (\<lambda>data func_name. add_count data (strip func_name) 1) []
            (findall (translate_newlines content)))"

definition load_data :: "string \<Rightarrow> string \<Rightarrow> exit + table" where
  \<comment> \<open>\<open>load_data\<close> (report.py, lines 24-32), from the suffix of the path and the
     text of the file\<close>
  "load_data sfx content =
     (if sfx = ''.svg'' then parse_svg content
      else if sfx \<in> set [''.json'', ''.raw''] then parse_json (file_lines content)
      else Inl (SystemExit 1))"

section \<open>Classification and analysis\<close>

definition categorize_function :: "string \<Rightarrow> string" where
  \<comment> \<open>\<open>_categorize_function\<close> (report.py, lines 91-108)\<close>
  "categorize_function f =
     (let func_lower = lower f
      in if list_ex (\<lambda>kw. str_in kw func_lower) [''await'', ''coroutine'', ''async'']
         then ''async_io''
         else if list_ex (\<lambda>kw. str_in kw func_lower)
                   [''sql'', ''query'', ''mysql'', ''select'', ''insert'']
         then ''database''
         else if list_ex (\<lambda>kw. str_in kw func_lower) [''redis'', ''cache'', ''get'', ''set'']
         then ''cache''
         else if list_ex (\<lambda>kw. str_in kw func_lower) [''uvicorn'', ''httptools'', ''request'']
         then ''http''
         else if list_ex (\<lambda>kw. str_in kw func_lower) [''security'', ''jwt'', ''auth'']
         then ''security''
         else if list_ex (\<lambda>kw. str_in kw func_lower) [''render'', ''template'', ''json'']
         then ''serialization''
         else ''other'')"

text \<open>
  The analysis structure of \<open>analyze\<close> (report.py, lines 66-89). The field
  \<open>func\<close> is the key \<open>"function"\<close> of the source. Percentages are floats in the
  source, rounded to two decimals in \<open>top_functions\<close>; here they are the exact
  quotients, so the rounding of \<open>round\<close> and of float division is outside the model.
  \<open>categories\<close> is a \<open>defaultdict(int)\<close> whose items are read in insertion order.
\<close>

record top_function =
  func :: string
  samples :: int
  percentage :: rat

record analysis =
  total_samples :: int
  unique_functions :: nat
  top_functions :: "top_function list"
  categories :: table

definition sorted_data :: "table \<Rightarrow> table" where
  \<comment> \<open>\<open>sorted(self.data.items(), key=lambda x: x[1], reverse=True)\<close>: Python's sort
     is stable, also with \<open>reverse=True\<close>, so items of equal count keep their order\<close>
  "sorted_data data = sort_key (\<lambda>x. - snd x) data"

definition share :: "int \<Rightarrow> int \<Rightarrow> rat" where
  \<comment> \<open>\<open>(count / total * 100) if total > 0 else 0\<close>\<close>
  "share cnt tot = (if tot > 0 then of_int cnt / of_int tot * 100 else 0)"

definition analyze :: "table \<Rightarrow> analysis" where
  "analyze data =
     (let total = sum_list (map snd data);
          top50 = take 50 (sorted_data data)
      in \<lparr> total_samples = total,
           unique_functions = length data,
           top_functions =
             map (\<lambda>(f, c). \<lparr> func = f, samples = c, percentage = share c total \<rparr>) top50,
           categories =
             foldl (\<lambda>cats (f, c). add_count cats (categorize_function f) c) [] top50 \<rparr>)"

section \<open>Recommendations\<close>

text \<open>
  \<open>_generate_recommendations\<close> (report.py, lines 155-190) returns a list of lines of
  text. Each constructor below is one line of the source, in the order of the source;
  the three headings carry the percentage they print.
\<close>

datatype advice =
    Insufficient_data
  | Database_heading rat | Database_n_plus_one | Database_pool | Database_index
  | Async_heading rat | Async_blocking | Async_library
  | Cache_heading rat | Cache_hit_rate | Cache_local
  | No_bottleneck

definition category_advice :: "int \<Rightarrow> string \<times> int \<Rightarrow> advice list" where
  \<comment> \<open>the body of the loop over \<open>categories.items()\<close>\<close>
  "category_advice tot item =
     (let category = fst item; percentage = share (snd item) tot
      in if category = ''database'' \<and> percentage > 20
         then [Database_heading percentage, Database_n_plus_one, Database_pool,
               Database_index]
         else if category = ''async_io'' \<and> percentage > 30
         then [Async_heading percentage, Async_blocking, Async_library]
         else if category = ''cache'' \<and> percentage > 15
         then [Cache_heading percentage, Cache_hit_rate, Cache_local]
         else [])"

definition generate_recommendations :: "analysis \<Rightarrow> advice list" where
  "generate_recommendations a =
     (if total_samples a = 0 then [Insufficient_data]
      else (let recommendations = concat (map (category_advice (total_samples a)) (categories a))
            in if recommendations = [] then [No_bottleneck] else recommendations))"

section \<open>The process locator\<close>

text \<open>
  \<open>find_process_by_port\<close> and \<open>wait_for_app_start\<close> (monitor.py, lines 64-80).
  A connection is what \<open>psutil.net_connections()\<close> lists: its status, the port of its
  local address, and the PID of its owner, which psutil leaves \<open>None\<close> when it cannot
  tell.

  The wait reads the clock and sleeps, so the model is a simulation: the process table
  is a function from the time, in milliseconds, to the connections listed at that
  time; a scan takes no time and \<open>time.sleep(0.5)\<close> takes exactly 500 ms. The result
  is paired with the time at which the function returns.
\<close>

record connection =
  conn_status :: string
  laddr_port :: int
  conn_pid :: "nat option"

fun find_process_by_port :: "connection list \<Rightarrow> int \<Rightarrow> nat option" where
  "find_process_by_port [] port = None"
| "find_process_by_port (conn # rest) port =
     (if conn_status conn = ''LISTEN'' \<and> laddr_port conn = port then conn_pid conn
      else find_process_by_port rest port)"

definition truthy :: "nat option \<Rightarrow> bool" where
  \<comment> \<open>\<open>if pid:\<close> on an \<open>Optional[int]\<close>: \<open>None\<close> and 0 are false\<close>
  "truthy r = (case r of None \<Rightarrow> False | Some p \<Rightarrow> p \<noteq> 0)"

function wait_loop ::
  "(int \<Rightarrow> connection list) \<Rightarrow> int \<Rightarrow> int \<Rightarrow> int \<Rightarrow> int \<Rightarrow> nat option \<times> int" where
  "wait_loop net port timeout start_time now =
     (if now - start_time < timeout * 1000
      then (let pid = find_process_by_port (net now) port
            in if truthy pid then (pid, now)
               else wait_loop net port timeout start_time (now + 500))
      else (None, now))"
  by pat_completeness auto
termination
  by (relation "measure (\<lambda>(net, port, timeout, start_time, now).
                  nat (start_time + timeout * 1000 - now))") auto

definition wait_for_app_start ::
  "(int \<Rightarrow> connection list) \<Rightarrow> int \<Rightarrow> int \<Rightarrow> int \<Rightarrow> nat option \<times> int" where
  \<comment> \<open>called at time \<open>start_time\<close>, with the timeout in seconds\<close>
  "wait_for_app_start net port timeout start_time =
     wait_loop net port timeout start_time start_time"

section \<open>Termination of a process tree\<close>

text \<open>
  \<open>kill_process_tree\<close> (monitor.py, lines 83-110) works on the process table of the
  operating system through psutil. The table lists each live process with its parent
  and with how it answers a signal: a \<open>protected\<close> process cannot be signalled by the
  caller (psutil raises \<open>AccessDenied\<close>, \<open>os.kill\<close> raises \<open>PermissionError\<close>), a
  \<open>stubborn\<close> one survives a request to terminate; every other process is gone as
  soon as it is signalled. An outcome is the exception that left the block, if any,
  and the table as it then is.
\<close>

record process =
  ppid :: nat
  protected :: bool
  stubborn :: bool

type_synonym process_table = "(nat \<times> process) list"

datatype psutil_error = NoSuchProcess | AccessDenied | TimeoutExpired

type_synonym outcome = "psutil_error option \<times> process_table"

definition pid_exists :: "process_table \<Rightarrow> nat \<Rightarrow> bool" where
  "pid_exists tbl pid = (map_of tbl pid \<noteq> None)"

definition remove_process :: "process_table \<Rightarrow> nat \<Rightarrow> process_table" where
  "remove_process tbl pid = filter (\<lambda>entry. fst entry \<noteq> pid) tbl"

definition terminate :: "nat \<Rightarrow> process_table \<Rightarrow> outcome" where
  \<comment> \<open>\<open>Process.terminate()\<close>\<close>
  "terminate pid tbl =
     (case map_of tbl pid of
        None \<Rightarrow> (Some NoSuchProcess, tbl)
      | Some info \<Rightarrow>
          if protected info then (Some AccessDenied, tbl)
          else if stubborn info then (None, tbl)
          else (None, remove_process tbl pid))"

definition kill :: "nat \<Rightarrow> process_table \<Rightarrow> outcome" where
  \<comment> \<open>\<open>Process.kill()\<close>\<close>
  "kill pid tbl =
     (case map_of tbl pid of
        None \<Rightarrow> (Some NoSuchProcess, tbl)
      | Some info \<Rightarrow>
          if protected info then (Some AccessDenied, tbl)
          else (None, remove_process tbl pid))"

definition new_children :: "process_table \<Rightarrow> nat list \<Rightarrow> nat list" where
  \<comment> \<open>the processes whose parent has been seen and that have not been seen\<close>
  "new_children tbl seen =
     map fst (filter (\<lambda>entry. ppid (snd entry) \<in> set seen \<and> fst entry \<notin> set seen) tbl)"

function descend :: "process_table \<Rightarrow> nat list \<Rightarrow> nat list" where
  \<comment> \<open>the processes reached from \<open>seen\<close> through the parent links\<close>
  "descend tbl seen =
     (if new_children tbl seen = [] then seen
      else descend tbl (seen @ new_children tbl seen))"
  by pat_completeness auto
termination
proof (relation "measure (\<lambda>(tbl, seen). card (fst ` set tbl - set seen))")
  show "wf (measure (\<lambda>(tbl, seen). card (fst ` set tbl - set seen)))"
    by simp
next
  fix tbl :: process_table and seen :: "nat list"
  assume "new_children tbl seen \<noteq> []"
  then obtain c where c: "c \<in> set (new_children tbl seen)"
    by (cases "new_children tbl seen") auto
  then have "c \<in> fst ` set tbl - set seen"
    by (auto simp: new_children_def)
  moreover have "c \<notin> fst ` set tbl - set (seen @ new_children tbl seen)"
    using c by simp
  moreover have "fst ` set tbl - set (seen @ new_children tbl seen) \<subseteq> fst ` set tbl - set seen"
    by auto
  ultimately have "fst ` set tbl - set (seen @ new_children tbl seen) \<subset> fst ` set tbl - set seen"
    by blast
  then have "card (fst ` set tbl - set (seen @ new_children tbl seen))
               < card (fst ` set tbl - set seen)"
    by (simp add: psubset_card_mono)
  then show "((tbl, seen @ new_children tbl seen), (tbl, seen))
               \<in> measure (\<lambda>(tbl, seen). card (fst ` set tbl - set seen))"
    by simp
qed

definition children :: "process_table \<Rightarrow> nat \<Rightarrow> nat list" where
  \<comment> \<open>\<open>parent.children(recursive=True)\<close>: every descendant, the parent left out\<close>
  "children tbl pid = tl (descend tbl [pid])"

fun terminate_children :: "nat list \<Rightarrow> process_table \<Rightarrow> outcome" where
  \<comment> \<open>lines 88-92: \<open>NoSuchProcess\<close> is passed over, any other exception leaves the loop\<close>
  "terminate_children [] tbl = (None, tbl)"
| "terminate_children (child # rest) tbl =
     (case terminate child tbl of
        (None, tbl') \<Rightarrow> terminate_children rest tbl'
      | (Some NoSuchProcess, tbl') \<Rightarrow> terminate_children rest tbl'
      | (Some e, tbl') \<Rightarrow> (Some e, tbl'))"

fun kill_alive :: "nat list \<Rightarrow> process_table \<Rightarrow> outcome" where
  \<comment> \<open>lines 94-98\<close>
  "kill_alive [] tbl = (None, tbl)"
| "kill_alive (p # rest) tbl =
     (case kill p tbl of
        (None, tbl') \<Rightarrow> kill_alive rest tbl'
      | (Some NoSuchProcess, tbl') \<Rightarrow> kill_alive rest tbl'
      | (Some e, tbl') \<Rightarrow> (Some e, tbl'))"

definition try_block :: "nat \<Rightarrow> process_table \<Rightarrow> outcome" where
  \<comment> \<open>lines 86-100. \<open>psutil.Process(pid)\<close> raises \<open>NoSuchProcess\<close> for a PID that is
     not in the table; \<open>wait_procs\<close> gives as \<open>alive\<close> the children still in the table;
     \<open>parent.wait(timeout=3)\<close> raises \<open>TimeoutExpired\<close> if the parent is still there.\<close>
  "try_block pid tbl =
     (if \<not> pid_exists tbl pid then (Some NoSuchProcess, tbl)
      else (let descendants = children tbl pid
            in case terminate_children descendants tbl of
                 (Some e, t1) \<Rightarrow> (Some e, t1)
               | (None, t1) \<Rightarrow>
                   (case kill_alive (filter (pid_exists t1) descendants) t1 of
                      (Some e, t2) \<Rightarrow> (Some e, t2)
                    | (None, t2) \<Rightarrow>
                        (case terminate pid t2 of
                           (Some e, t3) \<Rightarrow> (Some e, t3)
                         | (None, t3) \<Rightarrow>
                             if pid_exists t3 pid then (Some TimeoutExpired, t3)
                             else (None, t3)))))"

definition fallback :: "bool \<Rightarrow> nat \<Rightarrow> process_table \<Rightarrow> process_table" where
  \<comment> \<open>lines 104-110: \<open>taskkill /F\<close> on win32, \<open>os.kill(pid, SIGTERM)\<close> elsewhere; the
     \<open>OSError\<close> of a missing or protected process is passed over\<close>
  "fallback win32 pid tbl =
     (case map_of tbl pid of
        None \<Rightarrow> tbl
      | Some info \<Rightarrow>
          if protected info then tbl
          else if win32 then remove_process tbl pid
          else if stubborn info then tbl
          else remove_process tbl pid)"

definition kill_process_tree :: "bool \<Rightarrow> nat \<Rightarrow> process_table \<Rightarrow> outcome" where
  "kill_process_tree win32 pid tbl =
     (case try_block pid tbl of
        (None, t) \<Rightarrow> (None, t)
      | (Some NoSuchProcess, t) \<Rightarrow> (None, t)
      | (Some e, t) \<Rightarrow> (None, fallback win32 pid t))"

section \<open>Notions the properties are stated with\<close>

subsection \<open>Lines of a table\<close>

definition fields :: "string \<Rightarrow> string list" where
  \<comment> \<open>the tab-separated fields of a line, as \<open>parse_line\<close> cuts them\<close>
  "fields line = split_on (CHR 0x09) (strip line)"

definition skipped :: "string \<Rightarrow> bool" where
  \<comment> \<open>a line with no tab, or with fewer than two fields\<close>
  "skipped line = (CHR 0x09 \<notin> set line \<or> length (fields line) < 2)"

definition bad_count :: "string \<Rightarrow> bool" where
  \<comment> \<open>a line with a tab and a count field that is not a valid integer\<close>
  "bad_count line =
     (CHR 0x09 \<in> set line \<and> length (fields line) \<ge> 2 \<and> py_int (fields line ! 1) = None)"

definition entry_of :: "string \<Rightarrow> (string \<times> int) option" where
  \<comment> \<open>the frame name and the count that a line of the table carries\<close>
  "entry_of line =
     (if skipped line then None
      else map_option (\<lambda>n. (fields line ! 0, n)) (py_int (fields line ! 1)))"


subsection \<open>Contributions of an artifact\<close>






subsection \<open>The taxonomy\<close>

definition priority_rules :: "(string \<times> string list) list" where
  \<comment> \<open>the taxonomy in its priority order, each category with its keywords\<close>
  "priority_rules =
     [(''async_io'', [''await'', ''coroutine'', ''async'']),
      (''database'', [''sql'', ''query'', ''mysql'', ''select'', ''insert'']),
      (''cache'', [''redis'', ''cache'', ''get'', ''set'']),
      (''http'', [''uvicorn'', ''httptools'', ''request'']),
      (''security'', [''security'', ''jwt'', ''auth'']),
      (''serialization'', [''render'', ''template'', ''json''])]"

fun first_matching :: "(string \<times> string list) list \<Rightarrow> string \<Rightarrow> string" where
  \<comment> \<open>the first category of the list with a keyword that occurs in the name, or
     \<open>other\<close>\<close>
  "first_matching [] s = ''other''"
| "first_matching (rule # rest) s =
     (if list_ex (\<lambda>kw. str_in kw s) (snd rule) then fst rule else first_matching rest s)"

definition category_total :: "table \<Rightarrow> string \<Rightarrow> int" where
  \<comment> \<open>in the spec's words: the sum of the sample counts of all frames assigned to
     the category\<close>
  "category_total data c =
     sum_list (map snd (filter (\<lambda>x. categorize_function (fst x) = c) data))"

subsection \<open>Flame graphs made of title fragments\<close>

definition title_fragment :: "string \<Rightarrow> string \<Rightarrow> string \<Rightarrow> string" where
  \<comment> \<open>a title fragment of a flame graph: the frame name, the sample number in
     digits, and whatever follows the word \<open>samples\<close> up to the end of the title\<close>
  "title_fragment name digits extra =
     ''<g><title>'' @ name @ '' ('' @ digits @ '' samples'' @ extra @ ''</title>''"

definition well_formed_title :: "string \<times> string \<times> string \<Rightarrow> bool" where
  \<comment> \<open>the name has no markup in it, the number is a number, and nothing after it
     opens another parenthesis; no carriage return, which reading would translate\<close>
  "well_formed_title x =
     (case x of (name, digits, extra) \<Rightarrow>
        CHR ''<'' \<notin> set name \<and> CHR 0x0D \<notin> set name \<and>
        digits \<noteq> [] \<and> list_all is_digit digits \<and>
        list_all (\<lambda>c. c \<notin> set [CHR ''<'', CHR ''('', CHR 0x0D]) extra)"

definition flame_graph :: "(string \<times> string \<times> string) list \<Rightarrow> string" where
  \<comment> \<open>an artifact made of title fragments\<close>
  "flame_graph xs = concat (map (\<lambda>(name, digits, extra). title_fragment name digits extra) xs)"

subsection \<open>Listeners\<close>

definition listening :: "connection list \<Rightarrow> int \<Rightarrow> bool" where
  \<comment> \<open>some connection is in the LISTEN state on the port\<close>
  "listening conns port =
     list_ex (\<lambda>conn. conn_status conn = ''LISTEN'' \<and> laddr_port conn = port) conns"

subsection \<open>Concrete inputs\<close>

definition scenario_artifact :: string where
  \<comment> \<open>the artifact of the scenario: three lines, a tab between name and count\<close>
  "scenario_artifact =
     ''handle_request'' @ CHR 0x09 # ''50'' @ CHR 0x0A #
     ''run_query'' @ CHR 0x09 # ''30'' @ CHR 0x0A #
     ''await_io'' @ CHR 0x09 # ''20''"

definition scenario_table :: table where
  \<comment> \<open>the table that the artifact of the scenario is read into\<close>
  "scenario_table = [(''handle_request'', 50), (''run_query'', 30), (''await_io'', 20)]"




definition two_digits :: "nat \<Rightarrow> string" where
  \<comment> \<open>a number below 100 in two decimal digits\<close>
  "two_digits i = [char_of (48 + i div 10), char_of (48 + i mod 10)]"

definition crowded_lines :: "string list" where
  \<comment> \<open>a table of 80 frames: \<open>f00\<close> to \<open>f49\<close> with 2 samples each, then \<open>sql00\<close> to
     \<open>sql29\<close> with 1 sample each\<close>
  "crowded_lines =
     map (\<lambda>i. ''f'' @ two_digits i @ CHR 0x09 # ''2'' @ [CHR 0x0A]) [0..<50]
     @ map (\<lambda>i. ''sql'' @ two_digits i @ CHR 0x09 # ''1'' @ [CHR 0x0A]) [0..<30]"

definition crowded_table :: table where
  \<comment> \<open>the table that \<open>crowded_lines\<close> is read into\<close>
  "crowded_table =
     map (\<lambda>i. (''f'' @ two_digits i, 2)) [0..<50] @ map (\<lambda>i. (''sql'' @ two_digits i, 1)) [0..<30]"

definition example_fragments :: "(string \<times> string \<times> string) list" where
  \<comment> \<open>three title fragments, two of them of the same frame\<close>
  "example_fragments =
     [(''main (app.py:3)'', ''7'', '', 70.00%)''),
      (''run_query'', ''3'', '', 30.00%)''),
      (''main (app.py:3)'', ''1000'', '')'')]"

definition late_listener :: "int \<Rightarrow> connection list" where
  \<comment> \<open>a simulated process table: PID 4242 starts to listen on port 8000 at 700 ms\<close>
  "late_listener t =
     (if t < 700 then []
      else [\<lparr>conn_status = ''LISTEN'', laddr_port = 8000, conn_pid = Some 4242\<rparr>])"

definition idle_listener :: "int \<Rightarrow> connection list" where
  \<comment> \<open>a simulated process table: a listener on port 8000 from 700 ms on, listed with
     PID 0\<close>
  "idle_listener t =
     (if t < 700 then []
      else [\<lparr>conn_status = ''LISTEN'', laddr_port = 8000, conn_pid = Some 0\<rparr>])"

definition example_table :: process_table where
  \<comment> \<open>a service (PID 10) with a worker and a grandchild, beside two other processes\<close>
  "example_table =
     [(1, \<lparr>ppid = 0, protected = True, stubborn = False\<rparr>),
      (10, \<lparr>ppid = 1, protected = False, stubborn = False\<rparr>),
      (11, \<lparr>ppid = 10, protected = False, stubborn = True\<rparr>),
      (12, \<lparr>ppid = 11, protected = False, stubborn = False\<rparr>),
      (13, \<lparr>ppid = 1, protected = False, stubborn = True\<rparr>)]"

section \<open>Properties of the tab-delimited ingestion\<close>

lemma parse_line_skipped: "skipped line \<Longrightarrow> parse_line data line = Some data"
  by (auto simp: skipped_def parse_line_def fields_def Let_def)

lemma parse_line_bad: "bad_count line \<Longrightarrow> parse_line data line = None"
  by (simp add: bad_count_def parse_line_def fields_def Let_def)

lemma parse_lines_drop_skipped:
  "parse_lines data (filter (\<lambda>l. \<not> skipped l) ls) = parse_lines data ls"
  by (induction ls arbitrary: data) (auto simp: parse_line_skipped split: option.splits)

lemma parse_lines_bad:
  "l \<in> set ls \<Longrightarrow> bad_count l \<Longrightarrow> parse_lines data ls = None"
  by (induction ls arbitrary: data) (auto simp: parse_line_bad split: option.splits)

text \<open>
  Claim C10. A line with no tab, or with fewer than two tab-separated fields, leaves the
  table as it is, and removing all such lines from the input changes nothing of the
  result. An input with a line that has a tab and a count field that is not a valid
  integer makes the ingestion exit with status 1, whatever the other lines are: the
  result is the exit and carries no table.
\<close>

theorem tab_ingestion_skips_or_fails:
  "(skipped line \<longrightarrow> parse_line data line = Some data) \<and>
   parse_json (filter (\<lambda>l. \<not> skipped l) ls) = parse_json ls \<and>
   ((\<exists>l \<in> set ls. bad_count l) \<longrightarrow> parse_json ls = Inl (SystemExit 1))"
  by (auto simp: parse_line_skipped parse_lines_drop_skipped parse_json_def parse_lines_bad)

theorem tab_ingestion_skips_or_fails_witness:
  "skipped ''# header'' \<and>
   parse_line [(''f'', 1)] ''# header'' = Some [(''f'', 1)] \<and>
   parse_json (filter (\<lambda>l. \<not> skipped l) [''# header'', ''f'' @ CHR 0x09 # ''2''])
     = parse_json [''# header'', ''f'' @ CHR 0x09 # ''2''] \<and>
   bad_count (''g'' @ CHR 0x09 # ''many'') \<and>
   parse_json [''f'' @ CHR 0x09 # ''2'', ''g'' @ CHR 0x09 # ''many'', ''h'' @ CHR 0x09 # ''3'']
     = Inl (SystemExit 1)"
proof -
  have s: "skipped ''# header''"
    by (simp add: skipped_def)
  have b: "bad_count (''g'' @ CHR 0x09 # ''many'')"
    by (simp add: bad_count_def fields_def strip_def py_isspace_def py_int_def
        int_isspace_def is_digit_def)
  have m: "\<exists>l \<in> set [''f'' @ CHR 0x09 # ''2'', ''g'' @ CHR 0x09 # ''many'',
                       ''h'' @ CHR 0x09 # ''3'']. bad_count l"
    using b by simp
  show ?thesis
    using s b m
      tab_ingestion_skips_or_fails [of "''# header''" "[(''f'', 1)]"
        "[''# header'', ''f'' @ CHR 0x09 # ''2'']"]
      tab_ingestion_skips_or_fails [of "''# header''" "[(''f'', 1)]"
        "[''f'' @ CHR 0x09 # ''2'', ''g'' @ CHR 0x09 # ''many'', ''h'' @ CHR 0x09 # ''3'']"]
    by blast
qed

section \<open>Properties of the recommendations\<close>

lemma analyze_total: "total_samples (analyze data) = sum_list (map snd data)"
  by (simp add: analyze_def Let_def)

text \<open>
  Claim C7. For an analysis whose total sample count is 0 the recommendation list is
  the single line that says that not enough data was collected: no line of a
  threshold is in it.
\<close>

theorem zero_total_gives_insufficient_data:
  "total_samples a = 0 \<Longrightarrow> generate_recommendations a = [Insufficient_data]"
  by (simp add: generate_recommendations_def)

theorem zero_total_gives_insufficient_data_witness:
  "total_samples (analyze [(''run_sql'', 5), (''await_io'', - 5)]) = 0 \<and>
   generate_recommendations (analyze [(''run_sql'', 5), (''await_io'', - 5)])
     = [Insufficient_data]"
proof -
  have h: "total_samples (analyze [(''run_sql'', 5), (''await_io'', - 5)]) = 0"
    by (simp add: analyze_total)
  show ?thesis
    using h zero_total_gives_insufficient_data [OF h] by simp
qed

section \<open>Properties of the termination of a process tree\<close>

lemma kill_process_tree_never_raises: "fst (kill_process_tree win32 pid tbl) = None"
  by (simp add: kill_process_tree_def split: prod.splits option.splits psutil_error.splits)

text \<open>
  Claim C9. For a PID that is not in the process table, \<open>kill_process_tree\<close> returns
  with no exception and leaves the table as it was.
\<close>

theorem kill_missing_process_succeeds:
  "pid \<notin> fst ` set tbl \<Longrightarrow> kill_process_tree win32 pid tbl = (None, tbl)"
  by (simp add: kill_process_tree_def try_block_def pid_exists_def map_of_eq_None_iff)

theorem kill_missing_process_succeeds_witness:
  "99 \<notin> fst ` set example_table \<and>
   kill_process_tree False 99 example_table = (None, example_table)"
proof -
  have h: "99 \<notin> fst ` set example_table"
    by (simp add: example_table_def)
  show ?thesis
    using h kill_missing_process_succeeds [OF h, of False] by simp
qed

section \<open>Properties of the classification\<close>

lemma str_in_sublist: "str_in kw s = sublist kw s"
  by (induction s) (auto simp: sublist_Cons_right)

lemma str_in_lower: "str_in kw s \<Longrightarrow> str_in (lower kw) (lower s)"
  unfolding str_in_sublist lower_def sublist_def by (metis map_append)

lemma categorize_lower:
  "lower f = lower g \<Longrightarrow> categorize_function f = categorize_function g"
  by (simp add: categorize_function_def)

lemma categorize_first_matching:
  "categorize_function f = first_matching priority_rules (lower f)"
  by (simp add: categorize_function_def priority_rules_def)

lemma async_first:
  "list_ex (\<lambda>kw. str_in kw (lower f)) [''await'', ''coroutine'', ''async'']
   \<Longrightarrow> categorize_function f = ''async_io''"
  by (simp add: categorize_function_def)

lemma lower_async_keyword:
  "kw \<in> set [''await'', ''coroutine'', ''async''] \<Longrightarrow> lower kw = kw"
  by (auto simp: lower_def py_lower_char_def)

lemma async_keyword_survives_lower:
  assumes "list_ex (\<lambda>kw. str_in kw f) [''await'', ''coroutine'', ''async'']"
  shows "list_ex (\<lambda>kw. str_in kw (lower f)) [''await'', ''coroutine'', ''async'']"
proof -
  from assms obtain kw
    where kw: "kw \<in> set [''await'', ''coroutine'', ''async'']" "str_in kw f"
    unfolding list_ex_iff by blast
  then have "str_in kw (lower f)"
    using str_in_lower [of kw f] lower_async_keyword [OF kw(1)] by simp
  with kw(1) show ?thesis
    unfolding list_ex_iff by blast
qed

text \<open>
  Claim C6. The category of a frame depends on its name only through the lowercase
  form of the name, and it is the first category, in the fixed priority order, one of
  whose keywords occurs in that form. A name in which an async keyword occurs is
  \<open>async_io\<close>, with the keyword in any mix of cases and whatever else occurs in the
  name; so a name that contains an async keyword and a database keyword is
  \<open>async_io\<close>.
\<close>

theorem classification_is_priority_ordered:
  "(lower f = lower g \<longrightarrow> categorize_function f = categorize_function g) \<and>
   categorize_function f = first_matching priority_rules (lower f) \<and>
   (list_ex (\<lambda>kw. str_in kw (lower f)) [''await'', ''coroutine'', ''async'']
      \<longrightarrow> categorize_function f = ''async_io'') \<and>
   (list_ex (\<lambda>kw. str_in kw f) [''await'', ''coroutine'', ''async''] \<and>
    list_ex (\<lambda>kw. str_in kw f) [''sql'', ''query'', ''mysql'', ''select'', ''insert'']
      \<longrightarrow> categorize_function f = ''async_io'')"
  using categorize_lower categorize_first_matching async_first async_keyword_survives_lower
  by blast

theorem classification_is_priority_ordered_witness:
  "lower ''Async_Query'' = lower ''async_query'' \<and>
   categorize_function ''Async_Query'' = categorize_function ''async_query'' \<and>
   list_ex (\<lambda>kw. str_in kw (lower ''Async_Query'')) [''await'', ''coroutine'', ''async''] \<and>
   categorize_function ''Async_Query'' = ''async_io'' \<and>
   list_ex (\<lambda>kw. str_in kw ''async_query'') [''await'', ''coroutine'', ''async''] \<and>
   list_ex (\<lambda>kw. str_in kw ''async_query'')
     [''sql'', ''query'', ''mysql'', ''select'', ''insert''] \<and>
   categorize_function ''async_query'' = ''async_io''"
proof -
  have l: "lower ''Async_Query'' = ''async_query''"
    by code_simp
  have l': "lower ''async_query'' = ''async_query''"
    by code_simp
  have a: "list_ex (\<lambda>kw. str_in kw ''async_query'') [''await'', ''coroutine'', ''async'']"
    by simp
  have d: "list_ex (\<lambda>kw. str_in kw ''async_query'')
             [''sql'', ''query'', ''mysql'', ''select'', ''insert'']"
    by simp
  show ?thesis
    using l l' a d
      classification_is_priority_ordered [of "''Async_Query''" "''async_query''"]
      classification_is_priority_ordered [of "''async_query''" "''async_query''"]
    by (simp add: priority_rules_def)
qed

section \<open>The scenario\<close>

text \<open>
  Claim C2, as amended. The artifact of the scenario is ingested into three frames with
  100 samples in all. \<open>run_query\<close> is classified \<open>database\<close> (30 samples) and
  \<open>await_io\<close> is classified \<open>async_io\<close> (20 samples); \<open>handle_request\<close> contains the
  keyword \<open>request\<close> and is classified \<open>http\<close> (50 samples), so that nothing is
  counted under \<open>other\<close>. The recommendations are the four lines of the database
  recommendation, with a share of 30, and nothing else: no async recommendation.
\<close>

theorem scenario_analysis:
  "load_data ''.json'' scenario_artifact = Inr scenario_table \<and>
   total_samples (analyze scenario_table) = 100 \<and>
   categorize_function ''run_query'' = ''database'' \<and>
   categorize_function ''await_io'' = ''async_io'' \<and>
   categorize_function ''handle_request'' = ''http'' \<and>
   categories (analyze scenario_table)
     = [(''http'', 50), (''database'', 30), (''async_io'', 20)] \<and>
   lookup0 (categories (analyze scenario_table)) ''other'' = 0 \<and>
   generate_recommendations (analyze scenario_table)
     = [Database_heading 30, Database_n_plus_one, Database_pool, Database_index]"
  by code_simp

text \<open>
  The claim as it was stated fails on \<open>handle_request\<close>: its category is not
  \<open>other\<close>, and \<open>other\<close> does not total 50.
\<close>

theorem scenario_handle_request_is_not_other:
  "load_data ''.json'' scenario_artifact = Inr scenario_table \<and>
   categorize_function ''handle_request'' \<noteq> ''other'' \<and>
   lookup0 (categories (analyze scenario_table)) ''other'' \<noteq> 50"
  by code_simp

section \<open>Properties of the flame-graph ingestion\<close>

lemma lookup0_add_count:
  "lookup0 (add_count t k n) k' = (if k' = k then lookup0 t k + n else lookup0 t k')"
  by (induction t) auto

lemma lookup0_foldl_ones:
  "lookup0 (foldl (\<lambda>d m. add_count d (g m) 1) t ms) k
     = lookup0 t k + int (length (filter (\<lambda>m. g m = k) ms))"
  by (induction ms arbitrary: t) (auto simp: lookup0_add_count)

lemma parse_svg_lookup:
  "parse_svg content = Inr data \<Longrightarrow>
   lookup0 data k = int (length (filter (\<lambda>m. strip m = k) (findall (translate_newlines content))))"
  by (auto simp: parse_svg_def lookup0_foldl_ones)

lemma translate_newlines_id: "CHR 0x0D \<notin> set s \<Longrightarrow> translate_newlines s = s"
  by (induction s rule: translate_newlines.induct) auto

lemma dropWhile_first:
  "\<not> P x \<Longrightarrow> dropWhile P (u @ x # v) = d # r \<Longrightarrow> d \<in> set u \<or> d = x"
  by (induction u) (auto split: if_splits)

lemma not_space_lt: "\<not> py_isspace (CHR ''<'')"
  by (simp add: py_isspace_def)

lemma tail_pattern_none:
  "CHR ''('' \<notin> set u \<Longrightarrow> tail_pattern (u @ CHR ''<'' # v) = None"
proof (cases "dropWhile py_isspace (u @ CHR ''<'' # v)")
  case Nil
  then have False
    using not_space_lt by (simp add: dropWhile_eq_Nil_conv)
  then show ?thesis ..
next
  case (Cons d r)
  assume "CHR ''('' \<notin> set u"
  with dropWhile_first [OF not_space_lt Cons] have "d \<noteq> CHR ''(''" by auto
  then show ?thesis using Cons by (simp add: tail_pattern_def)
qed

lemma longest_group_none:
  "CHR ''('' \<notin> set u \<Longrightarrow> longest_group (u @ CHR ''<'' # v) = None"
  by (induction u) (auto simp: tail_pattern_none)

lemma strip_prefix_append: "strip_prefix p (p @ s) = Some s"
  by (induction p) auto

lemma dropWhile_digits:
  "list_all is_digit ds \<Longrightarrow> \<not> is_digit x \<Longrightarrow> dropWhile is_digit (ds @ x # v) = x # v"
  by (induction ds) auto

lemma takeWhile_digits:
  "list_all is_digit ds \<Longrightarrow> \<not> is_digit x \<Longrightarrow> takeWhile is_digit (ds @ x # v) = ds"
  by (induction ds) auto

lemma dropWhile_to_lt:
  "list_all (\<lambda>c. c \<notin> set [CHR ''<'', CHR ''('', CHR 0x0D]) extra \<Longrightarrow>
   dropWhile (\<lambda>x. x \<noteq> CHR ''<'') (extra @ CHR ''<'' # v) = CHR ''<'' # v"
  by (induction extra) auto

lemma tail_pattern_fragment:
  assumes "ds \<noteq> []" "list_all is_digit ds"
    "list_all (\<lambda>c. c \<notin> set [CHR ''<'', CHR ''('', CHR 0x0D]) extra"
  shows "tail_pattern (''('' @ ds @ '' samples'' @ extra @ ''</title>'' @ rest) = Some rest"
proof -
  have sp: "\<not> is_digit (CHR '' '')" by (simp add: is_digit_def)
  have a: "takeWhile is_digit (ds @ '' samples'' @ extra @ ''</title>'' @ rest) = ds"
    using takeWhile_digits [OF assms(2) sp] by simp
  have b: "dropWhile is_digit (ds @ '' samples'' @ extra @ ''</title>'' @ rest)
             = '' samples'' @ extra @ ''</title>'' @ rest"
    using dropWhile_digits [OF assms(2) sp] by simp
  have c: "dropWhile py_isspace ('' samples'' @ extra @ ''</title>'' @ rest)
             = ''samples'' @ extra @ ''</title>'' @ rest"
    by (simp add: py_isspace_def)
  have d: "dropWhile (\<lambda>x. x \<noteq> CHR ''<'') (extra @ ''</title>'' @ rest) = ''</title>'' @ rest"
    using dropWhile_to_lt [OF assms(3)] by simp
  have e: "strip_prefix ''samples'' (''samples'' @ extra @ ''</title>'' @ rest)
             = Some (extra @ ''</title>'' @ rest)"
    by (rule strip_prefix_append)
  have f: "strip_prefix ''</title>'' (''</title>'' @ rest) = Some rest"
    by (rule strip_prefix_append)
  have g: "dropWhile py_isspace (''('' @ ds @ '' samples'' @ extra @ ''</title>'' @ rest)
             = CHR ''('' # ds @ '' samples'' @ extra @ ''</title>'' @ rest"
    by (simp add: py_isspace_def)
  show ?thesis
    unfolding tail_pattern_def g using a b c d e f assms(1) by simp
qed

lemma digit_not_special: "is_digit c \<Longrightarrow> c \<noteq> CHR ''('' \<and> c \<noteq> CHR 0x0D \<and> c \<noteq> CHR ''<''"
  by (auto simp: is_digit_def)

lemma longest_group_paren:
  assumes "ds \<noteq> []" "list_all is_digit ds"
    "list_all (\<lambda>c. c \<notin> set [CHR ''<'', CHR ''('', CHR 0x0D]) extra"
  shows "longest_group (CHR '' '' # CHR ''('' # ds @ '' samples'' @ extra @ ''</title>'' @ rest)
           = Some ('' '', rest)"
proof -
  let ?u = "ds @ '' samples'' @ extra"
  let ?v = "''/title>'' @ rest"
  have "CHR ''('' \<notin> set ds"
    using assms(2) digit_not_special by (auto simp: list_all_iff)
  moreover have "CHR ''('' \<notin> set extra"
    using assms(3) by (auto simp: list_all_iff)
  ultimately have u: "CHR ''('' \<notin> set ?u"
    by simp
  have e: "ds @ '' samples'' @ extra @ ''</title>'' @ rest = ?u @ CHR ''<'' # ?v"
    by simp
  have n1: "longest_group (?u @ CHR ''<'' # ?v) = None"
    using u by (rule longest_group_none)
  have n2: "tail_pattern (?u @ CHR ''<'' # ?v) = None"
    using u by (rule tail_pattern_none)
  have n: "longest_group (CHR ''('' # ?u @ CHR ''<'' # ?v) = None"
    unfolding longest_group.simps n1 n2 by simp
  have t: "tail_pattern (CHR ''('' # ?u @ CHR ''<'' # ?v) = Some rest"
    using tail_pattern_fragment [OF assms, of rest] unfolding e [symmetric] by simp
  have "longest_group (CHR '' '' # CHR ''('' # ?u @ CHR ''<'' # ?v) = Some ('' '', rest)"
    unfolding longest_group.simps(2) [of "CHR '' ''"] n t by simp
  then show ?thesis unfolding e [symmetric] .
qed

lemma longest_group_prepend:
  "CHR ''<'' \<notin> set name \<Longrightarrow> longest_group t = Some (g, r)
   \<Longrightarrow> longest_group (name @ t) = Some (name @ g, r)"
  by (induction name) auto

lemma longest_group_fragment:
  assumes "CHR ''<'' \<notin> set name" "ds \<noteq> []" "list_all is_digit ds"
    "list_all (\<lambda>c. c \<notin> set [CHR ''<'', CHR ''('', CHR 0x0D]) extra"
  shows "longest_group (name @ CHR '' '' # CHR ''('' # ds @ '' samples'' @ extra @ ''</title>'' @ rest)
           = Some (name @ '' '', rest)"
  using longest_group_prepend [OF assms(1) longest_group_paren [OF assms(2,3,4), of rest]] .

lemma match_here_fragment:
  assumes "CHR ''<'' \<notin> set name" "ds \<noteq> []" "list_all is_digit ds"
    "list_all (\<lambda>c. c \<notin> set [CHR ''<'', CHR ''('', CHR 0x0D]) extra"
  shows "match_here (title_fragment name ds extra @ rest) = Some (name @ '' '', rest)"
proof -
  have "match_here (title_fragment name ds extra @ rest)
          = longest_group (name @ CHR '' '' # CHR ''('' # ds @ '' samples'' @ extra @ ''</title>'' @ rest)"
    by (simp add: match_here_def title_fragment_def py_isspace_def)
  then show ?thesis using longest_group_fragment [OF assms] by simp
qed

lemma findall_fragment:
  assumes "CHR ''<'' \<notin> set name" "ds \<noteq> []" "list_all is_digit ds"
    "list_all (\<lambda>c. c \<notin> set [CHR ''<'', CHR ''('', CHR 0x0D]) extra"
  shows "findall (title_fragment name ds extra @ rest) = (name @ '' '') # findall rest"
proof -
  obtain c cs where e: "title_fragment name ds extra @ rest = c # cs"
    by (simp add: title_fragment_def)
  show ?thesis
    using match_here_fragment [OF assms, of rest] unfolding e by simp
qed

lemma findall_flame_graph:
  "list_all well_formed_title xs \<Longrightarrow> findall (flame_graph xs) = map (\<lambda>x. fst x @ '' '') xs"
proof (induction xs)
  case Nil
  then show ?case by (simp add: flame_graph_def)
next
  case (Cons x xs)
  obtain name ds extra where x: "x = (name, ds, extra)" by (cases x) auto
  have w: "CHR ''<'' \<notin> set name" "ds \<noteq> []" "list_all is_digit ds"
    "list_all (\<lambda>c. c \<notin> set [CHR ''<'', CHR ''('', CHR 0x0D]) extra"
    using Cons.prems by (auto simp: x well_formed_title_def)
  have "flame_graph (x # xs) = title_fragment name ds extra @ flame_graph xs"
    by (simp add: flame_graph_def x)
  then show ?case using findall_fragment [OF w, of "flame_graph xs"] Cons by (simp add: x)
qed

lemma strip_space: "strip (s @ '' '') = strip s"
proof -
  have sp: "py_isspace (CHR '' '')"
    by (simp add: py_isspace_def)
  show ?thesis
  proof (cases "\<forall>x\<in>set s. py_isspace x")
    case True
    then have "\<forall>x\<in>set (s @ '' ''). py_isspace x"
      using sp by simp
    then have "dropWhile py_isspace (s @ '' '') = []"
      by (simp only: dropWhile_eq_Nil_conv)
    moreover have "dropWhile py_isspace s = []"
      using True by (simp only: dropWhile_eq_Nil_conv)
    ultimately show ?thesis
      unfolding strip_def by (simp only:)
  next
    case False
    then obtain x where "x \<in> set s" "\<not> py_isspace x"
      by blast
    then have "dropWhile py_isspace (s @ '' '') = dropWhile py_isspace s @ '' ''"
      by (rule dropWhile_append1)
    then show ?thesis
      using sp by (simp add: strip_def)
  qed
qed

lemma no_cr_fragment:
  assumes "well_formed_title (name, ds, extra)"
  shows "CHR 0x0D \<notin> set (title_fragment name ds extra)"
proof -
  have "CHR 0x0D \<notin> set name" "CHR 0x0D \<notin> set extra"
    using assms by (auto simp: well_formed_title_def list_all_iff)
  moreover have "CHR 0x0D \<notin> set ds"
    using assms digit_not_special by (auto simp: well_formed_title_def list_all_iff)
  ultimately show ?thesis by (simp add: title_fragment_def)
qed

lemma no_cr_flame_graph: "list_all well_formed_title xs \<Longrightarrow> CHR 0x0D \<notin> set (flame_graph xs)"
proof (induction xs)
  case Nil
  then show ?case by (simp add: flame_graph_def)
next
  case (Cons x xs)
  obtain name ds extra where x: "x = (name, ds, extra)" by (cases x) auto
  have "flame_graph (x # xs) = title_fragment name ds extra @ flame_graph xs"
    by (simp add: flame_graph_def x)
  then show ?case using Cons no_cr_fragment [of name ds extra] by (simp add: x)
qed

text \<open>
  Claim C3. After the ingestion of a flame graph, the count of a frame name is the
  number of matches of the pattern whose captured text, stripped, is that name: each
  match adds 1. For an artifact made of well-formed title fragments, every fragment is
  matched, its captured text is the frame name, and so the count of a name is the
  number of fragments that bear it, whatever numbers the fragments carry.
\<close>

theorem svg_counts_one_per_match:
  "(\<exists>data. parse_svg content = Inr data \<and>
      (\<forall>k. lookup0 data k
            = int (length (filter (\<lambda>m. strip m = k) (findall (translate_newlines content)))))) \<and>
   (list_all well_formed_title xs \<longrightarrow>
     (\<exists>data. parse_svg (flame_graph xs) = Inr data \<and>
        (\<forall>k. lookup0 data k = int (length (filter (\<lambda>x. strip (fst x) = k) xs)))))"
proof (intro conjI impI)
  show "\<exists>data. parse_svg content = Inr data \<and>
      (\<forall>k. lookup0 data k
            = int (length (filter (\<lambda>m. strip m = k) (findall (translate_newlines content)))))"
    by (simp add: parse_svg_def lookup0_foldl_ones)
next
  assume w: "list_all well_formed_title xs"
  have "findall (translate_newlines (flame_graph xs)) = map (\<lambda>x. fst x @ '' '') xs"
    using translate_newlines_id [OF no_cr_flame_graph [OF w]] findall_flame_graph [OF w] by simp
  then show "\<exists>data. parse_svg (flame_graph xs) = Inr data \<and>
        (\<forall>k. lookup0 data k = int (length (filter (\<lambda>x. strip (fst x) = k) xs)))"
    by (simp add: parse_svg_def lookup0_foldl_ones filter_map o_def strip_space)
qed

theorem svg_counts_one_per_match_witness:
  "list_all well_formed_title example_fragments \<and>
   (\<exists>data. parse_svg (flame_graph example_fragments) = Inr data \<and>
      lookup0 data ''main (app.py:3)'' = 2 \<and> lookup0 data ''run_query'' = 1)"
proof -
  have w: "list_all well_formed_title example_fragments"
    by code_simp
  have m: "int (length (filter (\<lambda>x. strip (fst x) = ''main (app.py:3)'') example_fragments)) = 2"
    by code_simp
  have q: "int (length (filter (\<lambda>x. strip (fst x) = ''run_query'') example_fragments)) = 1"
    by code_simp
  from svg_counts_one_per_match [of "[]" example_fragments] w
  obtain data where d: "parse_svg (flame_graph example_fragments) = Inr data"
    and l: "\<forall>k. lookup0 data k
              = int (length (filter (\<lambda>x. strip (fst x) = k) example_fragments))"
    by blast
  have "lookup0 data ''main (app.py:3)'' = 2" "lookup0 data ''run_query'' = 1"
    using l m q by simp_all
  with w d show ?thesis
    by blast
qed

section \<open>Properties of the frequency table and of the totals\<close>













lemma entry_of_bad: "bad_count line \<Longrightarrow> entry_of line = None"
  by (auto simp: bad_count_def entry_of_def)







section \<open>Properties of the category totals\<close>

lemma lookup0_foldl_categories:
  "lookup0 (foldl (\<lambda>cats (f, c). add_count cats (g f) c) t xs) k
     = lookup0 t k + sum_list (map snd (filter (\<lambda>x. g (fst x) = k) xs))"
  by (induction xs arbitrary: t) (auto simp: lookup0_add_count)

lemma categories_top_50:
  "lookup0 (categories (analyze data)) c = category_total (take 50 (sorted_data data)) c"
  by (simp add: analyze_def Let_def lookup0_foldl_categories category_total_def)

lemma category_total_mset:
  "mset xs = mset ys \<Longrightarrow> category_total xs c = category_total ys c"
proof -
  assume m: "mset xs = mset ys"
  have "category_total zs c
          = sum_mset (image_mset snd (filter_mset (\<lambda>x. categorize_function (fst x) = c) (mset zs)))" for zs
    unfolding category_total_def by (metis mset_filter mset_map sum_mset_sum_list)
  then show ?thesis using m by simp
qed

lemma categories_small:
  "length data \<le> 50 \<Longrightarrow> lookup0 (categories (analyze data)) c = category_total data c"
proof -
  assume "length data \<le> 50"
  then have "take 50 (sorted_data data) = sorted_data data"
    by (simp add: sorted_data_def)
  moreover have "mset (sorted_data data) = mset data"
    by (simp add: sorted_data_def)
  ultimately show ?thesis
    using category_total_mset [of "sorted_data data" data c] by (simp add: categories_top_50)
qed

lemma crowded_categories: "categories (analyze crowded_table) = [(''other'', 100)]"
  by code_simp

lemma crowded_total: "total_samples (analyze crowded_table) = 130"
  by code_simp

text \<open>
  Claim C1 says that the total of a category is the sum of the counts of all frames of
  the category. The code sums the categories inside the loop over the 50 top frames, so
  the claim does not hold of it: for a table of 80 frames whose 30 database frames all
  rank below the 50th place, the database total of the analysis is 0, where the frames
  classified \<open>database\<close> have 30 of the 130 samples; with a share above 20% left
  unseen, the report says that no bottleneck was found.
\<close>

theorem category_totals_stop_at_top_50:
  "load_data ''.json'' (concat crowded_lines) = Inr crowded_table \<and>
   total_samples (analyze crowded_table) = 130 \<and>
   category_total crowded_table ''database'' = 30 \<and>
   lookup0 (categories (analyze crowded_table)) ''database'' = 0 \<and>
   generate_recommendations (analyze crowded_table) = [No_bottleneck]"
proof -
  have a: "load_data ''.json'' (concat crowded_lines) = Inr crowded_table"
    by code_simp
  have c: "category_total crowded_table ''database'' = 30"
    by code_simp
  have r: "generate_recommendations (analyze crowded_table) = [No_bottleneck]"
    by (simp add: generate_recommendations_def crowded_categories crowded_total
        category_advice_def Let_def)
  show ?thesis
    using a c r by (simp add: crowded_categories crowded_total)
qed

section \<open>Properties of the ranking\<close>














section \<open>Properties of the wait for a listener\<close>

declare wait_loop.simps [simp del]

lemma not_listening_find: "\<not> listening conns port \<Longrightarrow> find_process_by_port conns port = None"
  by (induction conns) (auto simp: listening_def)

lemma wait_loop_none:
  "(\<forall>t. now \<le> t \<and> t < start_time + timeout * 1000 \<longrightarrow> \<not> truthy (find_process_by_port (net t) port))
   \<Longrightarrow> fst (wait_loop net port timeout start_time now) = None"
proof (induction net port timeout start_time now rule: wait_loop.induct)
  case (1 net port timeout start_time now)
  show ?case
  proof (cases "now - start_time < timeout * 1000")
    case True
    then have nt: "\<not> truthy (find_process_by_port (net now) port)"
      using "1.prems" by simp
    have "fst (wait_loop net port timeout start_time (now + 500)) = None"
      using "1.IH" [OF True refl nt] "1.prems" by simp
    then show ?thesis
      using True nt by (subst wait_loop.simps) (simp add: Let_def)
  next
    case False
    then show ?thesis
      by (subst wait_loop.simps) simp
  qed
qed

lemma wait_loop_found:
  assumes "now < T + 500" "T + 500 \<le> start_time + timeout * 1000" "p \<noteq> 0"
    and "\<forall>t. t < T \<longrightarrow> \<not> truthy (find_process_by_port (net t) port)"
    and "\<forall>t. T \<le> t \<longrightarrow> find_process_by_port (net t) port = Some p"
  shows "\<exists>r. wait_loop net port timeout start_time now = (Some p, r) \<and> T \<le> r \<and> now \<le> r \<and> r < T + 500"
  using assms
proof (induction net port timeout start_time now rule: wait_loop.induct)
  case (1 net port timeout start_time now)
  have c: "now - start_time < timeout * 1000" using "1.prems"(1,2) by simp
  show ?case
  proof (cases "T \<le> now")
    case True
    then have "find_process_by_port (net now) port = Some p" using "1.prems"(5) by simp
    then have "wait_loop net port timeout start_time now = (Some p, now)"
      using c "1.prems"(3) by (subst wait_loop.simps) (simp add: truthy_def)
    then show ?thesis using True "1.prems"(1) by simp
  next
    case False
    then have nt: "\<not> truthy (find_process_by_port (net now) port)" using "1.prems"(4) by simp
    have "now + 500 < T + 500" using False by simp
    from "1.IH" [OF c refl nt this "1.prems"(2,3,4,5)]
    obtain r where "wait_loop net port timeout start_time (now + 500) = (Some p, r)"
      "T \<le> r" "now + 500 \<le> r" "r < T + 500" by blast
    then show ?thesis using c nt
      by (subst wait_loop.simps) (auto simp: Let_def)
  qed
qed

text \<open>
  Claim C8, as amended. If no connection listens on the port at any time of the timeout
  window, the wait returns \<open>None\<close>. If a listener with a non-zero PID \<open>p\<close> appears
  at a time \<open>T\<close> of the wait, at least one polling interval (500 ms) before the end of
  the timeout, and stays, the wait returns \<open>p\<close>, at a time \<open>r\<close> with
  \<open>T \<le> r < T + 500\<close>.
\<close>

theorem wait_returns_within_one_interval:
  "((\<forall>t. start_time \<le> t \<and> t < start_time + timeout * 1000 \<longrightarrow> \<not> listening (net t) port)
      \<longrightarrow> fst (wait_for_app_start net port timeout start_time) = None) \<and>
   (start_time \<le> T \<and> T + 500 \<le> start_time + timeout * 1000 \<and> p \<noteq> 0 \<and>
    (\<forall>t. t < T \<longrightarrow> \<not> listening (net t) port) \<and>
    (\<forall>t. T \<le> t \<longrightarrow> find_process_by_port (net t) port = Some p)
      \<longrightarrow> (\<exists>r. wait_for_app_start net port timeout start_time = (Some p, r) \<and> T \<le> r \<and> r < T + 500))"
proof (intro conjI impI)
  assume a: "\<forall>t. start_time \<le> t \<and> t < start_time + timeout * 1000 \<longrightarrow> \<not> listening (net t) port"
  have "\<forall>t. start_time \<le> t \<and> t < start_time + timeout * 1000 \<longrightarrow> \<not> truthy (find_process_by_port (net t) port)"
    using a not_listening_find by (simp add: truthy_def)
  from wait_loop_none [OF this] show "fst (wait_for_app_start net port timeout start_time) = None"
    by (simp add: wait_for_app_start_def)
next
  assume a: "start_time \<le> T \<and> T + 500 \<le> start_time + timeout * 1000 \<and> p \<noteq> 0 \<and>
    (\<forall>t. t < T \<longrightarrow> \<not> listening (net t) port) \<and>
    (\<forall>t. T \<le> t \<longrightarrow> find_process_by_port (net t) port = Some p)"
  then have n: "\<forall>t. t < T \<longrightarrow> \<not> truthy (find_process_by_port (net t) port)"
    using not_listening_find by (simp add: truthy_def)
  have "start_time < T + 500" using a by simp
  from wait_loop_found [where now = start_time and T = T and timeout = timeout
      and start_time = start_time and p = p and net = net and port = port, OF this _ _ n] a
  show "\<exists>r. wait_for_app_start net port timeout start_time = (Some p, r) \<and> T \<le> r \<and> r < T + 500"
    unfolding wait_for_app_start_def by blast
qed

theorem wait_returns_within_one_interval_witness:
  "fst (wait_for_app_start (\<lambda>t. []) 8000 1 0) = None \<and>
   (\<exists>r. wait_for_app_start late_listener 8000 2 0 = (Some 4242, r) \<and> 700 \<le> r \<and> r < 700 + 500)"
proof -
  have q: "\<forall>t. (0::int) \<le> t \<and> t < 0 + 1 * 1000 \<longrightarrow> \<not> listening ((\<lambda>t. []) t) 8000"
    by (simp add: listening_def)
  have h: "(0::int) \<le> 700 \<and> (700::int) + 500 \<le> 0 + 2 * 1000 \<and> (4242::nat) \<noteq> 0 \<and>
        (\<forall>t. t < 700 \<longrightarrow> \<not> listening (late_listener t) 8000) \<and>
        (\<forall>t. 700 \<le> t \<longrightarrow> find_process_by_port (late_listener t) 8000 = Some 4242)"
    by (simp add: late_listener_def listening_def)
  show ?thesis
    using q h
      wait_returns_within_one_interval [of 0 1 "\<lambda>t. []" 8000 700 4242]
      wait_returns_within_one_interval [of 0 2 late_listener 8000 700 4242]
    by blast
qed

text \<open>
  The claim as it was stated asks only that the listener appears before the timeout.
  It fails for a listener that appears after the last scan: with a timeout of 1 s the
  scans are at 0 and 500 ms, a listener that appears at 700 ms is never seen, and the
  wait returns \<open>None\<close> at 1000 ms. It fails as well for a listener that is listed with
  PID 0, which \<open>if pid:\<close> takes for no listener: the wait goes on to the timeout.
\<close>

theorem wait_misses_late_listener:
  "\<not> (\<forall>net port timeout start_time T p.
        start_time \<le> T \<and> T < start_time + timeout * 1000 \<and> p \<noteq> 0 \<and>
        (\<forall>t. t < T \<longrightarrow> \<not> listening (net t) port) \<and>
        (\<forall>t. T \<le> t \<longrightarrow> find_process_by_port (net t) port = Some p)
        \<longrightarrow> (\<exists>r. wait_for_app_start net port timeout start_time = (Some p, r) \<and> r < T + 500)) \<and>
   wait_for_app_start late_listener 8000 1 0 = (None, 1000) \<and>
   find_process_by_port (idle_listener 700) 8000 = Some 0 \<and>
   wait_for_app_start idle_listener 8000 2 0 = (None, 2000)"
proof (intro conjI notI)
  assume c: "\<forall>net port timeout start_time T p.
        start_time \<le> T \<and> T < start_time + timeout * 1000 \<and> p \<noteq> 0 \<and>
        (\<forall>t. t < T \<longrightarrow> \<not> listening (net t) port) \<and>
        (\<forall>t. T \<le> t \<longrightarrow> find_process_by_port (net t) port = Some p)
        \<longrightarrow> (\<exists>r. wait_for_app_start net port timeout start_time = (Some p, r) \<and> r < T + 500)"
  have e: "wait_for_app_start late_listener 8000 1 0 = (None, 1000)"
    by (simp add: wait_for_app_start_def wait_loop.simps late_listener_def truthy_def)
  have "(0::int) \<le> 700 \<and> (700::int) < 0 + 1 * 1000 \<and> (4242::nat) \<noteq> 0 \<and>
        (\<forall>t. t < 700 \<longrightarrow> \<not> listening (late_listener t) 8000) \<and>
        (\<forall>t. 700 \<le> t \<longrightarrow> find_process_by_port (late_listener t) 8000 = Some 4242)"
    by (simp add: late_listener_def listening_def)
  with c have "\<exists>r. wait_for_app_start late_listener 8000 1 0 = (Some 4242, r) \<and> r < 700 + 500"
    by blast
  with e show False
    by simp
next
  show "wait_for_app_start late_listener 8000 1 0 = (None, 1000)"
    by (simp add: wait_for_app_start_def wait_loop.simps late_listener_def truthy_def)
next
  show "find_process_by_port (idle_listener 700) 8000 = Some 0"
    by (simp add: idle_listener_def)
next
  show "wait_for_app_start idle_listener 8000 2 0 = (None, 2000)"
    by (simp add: wait_for_app_start_def wait_loop.simps idle_listener_def truthy_def)
qed

end
